theory Spec2Isabelle
  imports Complex_Main
begin

section \<open>Feature-set proposal moves of NhDBN/utils.py\<close>

text \<open>
  The Python functions of \<^verbatim>\<open>src/NhDBN/utils.py\<close> are embedded as HOL functions.
  A raised exception is a value \<open>Inl e\<close> of the sum type \<open>error + 'a\<close>. The
  process-wide random generator of numpy is made explicit: every call of
  \<^verbatim>\<open>np.random.choice\<close> takes the raw draw it consumes as an argument.
\<close>

subsection \<open>Errors\<close>

text \<open>Python exceptions, each with its message.\<close>

datatype error = ValueError string | KeyError string

subsection \<open>The numpy operations the source calls\<close>

text \<open>\<^verbatim>\<open>np.arange(n)\<close>: the integers \<open>0, ..., n - 1\<close>; empty when \<open>n \<le> 0\<close>.\<close>

definition np_arange :: "int \<Rightarrow> int list" where
  "np_arange n = map int [0..<nat n]"

text \<open>\<^verbatim>\<open>np.add(xs, c)\<close> with a scalar \<open>c\<close>: elementwise.\<close>

definition np_add :: "int list \<Rightarrow> int \<Rightarrow> int list" where
  "np_add xs c = map (\<lambda>x. x + c) xs"

text \<open>
  \<^verbatim>\<open>np.setdiff1d(ar1, ar2)\<close>: the sorted, unique values of \<open>ar1\<close> that are not in
  \<open>ar2\<close>. A scalar second argument is the one-element array.
\<close>

definition np_setdiff1d :: "int list \<Rightarrow> int list \<Rightarrow> int list" where
  "np_setdiff1d ar1 ar2 = sort (remdups (filter (\<lambda>x. x \<notin> set ar2) ar1))"

text \<open>\<^verbatim>\<open>np.append(arr, v)\<close> with a scalar \<open>v\<close>.\<close>

definition np_append :: "int list \<Rightarrow> int \<Rightarrow> int list" where
  "np_append arr v = arr @ [v]"

text \<open>
  \<^verbatim>\<open>np.random.choice(a)\<close> on a one-dimensional array: one element of \<open>a\<close>, at the
  position the generator draws; ValueError on an empty array. The draw \<open>r\<close> is
  the generator's raw output, reduced to a position of \<open>a\<close>, so every draw is
  legal and every position can be drawn. The text of numpy's message depends on
  the numpy version; it is none of the messages of utils.py.
\<close>

definition np_random_choice :: "int list \<Rightarrow> nat \<Rightarrow> error + int" where
  "np_random_choice a r =
     (if a = [] then Inl (ValueError ''a must be non-empty'')
      else Inr (a ! (r mod length a)))"

subsection \<open>The three moves\<close>

definition deleteMove :: "int list \<Rightarrow> int \<Rightarrow> int \<Rightarrow> nat \<Rightarrow> error + int list" where
  "deleteMove featureSet numFeatures fanInRestriction r =
     (if length featureSet < 2
      then Inl (ValueError ''You cannot delete an element when the card(Pi) is <2.'')
      else case np_random_choice featureSet r of
             Inl e \<Rightarrow> Inl e
           | Inr elToDel \<Rightarrow> Inr (np_setdiff1d featureSet [elToDel]))"

definition addMove :: "int list \<Rightarrow> int \<Rightarrow> int \<Rightarrow> nat \<Rightarrow> error + int list" where
  "addMove featureSet numFeatures fanInRestriction r =
     (if int (length featureSet) > fanInRestriction - 1
      then Inl (ValueError
        ''The cardinality of the feature set cannot be more than the fan-in restriction.'')
      else
        let allFeatures = np_add (np_arange numFeatures) 1;
            candidateFeatureSet = np_setdiff1d allFeatures featureSet
        in case np_random_choice candidateFeatureSet r of
             Inl e \<Rightarrow> Inl e
           | Inr featureToAdd \<Rightarrow> Inr (np_append featureSet featureToAdd))"

definition exchangeMove :: "int list \<Rightarrow> int \<Rightarrow> int \<Rightarrow> nat \<Rightarrow> nat \<Rightarrow> error + int list" where
  "exchangeMove featureSet numFeatures fanInRestriction r1 r2 =
     (if length featureSet < 1
      then Inl (ValueError
        ''You must have at least one element on the feature set to be able to exchange it.'')
      else
        let allFeatures = np_add (np_arange numFeatures) 1
        in case np_random_choice featureSet r1 of
             Inl e \<Rightarrow> Inl e
           | Inr elToExchange \<Rightarrow>
               let allFeaturesNoExchange = np_setdiff1d allFeatures [elToExchange];
                   featureSet' = np_setdiff1d featureSet [elToExchange]
               in case np_random_choice allFeaturesNoExchange r2 of
                    Inl e \<Rightarrow> Inl e
                  | Inr elToAdd \<Rightarrow> Inr (np_append featureSet' elToAdd))"

subsection \<open>Arrays of floats\<close>

text \<open>
  A numpy array of floats with one axis (\<open>Vec\<close>) or two (\<open>Mat nrows ncols rows\<close>,
  stored by rows). The shape is kept beside the entries, as numpy keeps it: a
  matrix with no rows still has a column count. No arithmetic is done on the
  entries, so they are reals.
\<close>

datatype ndarray = Vec "real list" | Mat nat nat "real list list"

text \<open>\<^verbatim>\<open>np.ones(n)\<close> and \<^verbatim>\<open>np.zeros(n)\<close>; a negative length is a ValueError.\<close>

definition np_ones :: "int \<Rightarrow> error + real list" where
  "np_ones n =
     (if n < 0 then Inl (ValueError ''negative dimensions are not allowed'')
      else Inr (replicate (nat n) 1))"

definition np_zeros :: "int \<Rightarrow> error + real list" where
  "np_zeros n =
     (if n < 0 then Inl (ValueError ''negative dimensions are not allowed'')
      else Inr (replicate (nat n) 0))"

text \<open>
  \<^verbatim>\<open>np.vstack((a, v))\<close> with \<open>v\<close> of one axis: both are read as matrices (an array
  of one axis is one row) and stacked; the row lengths must agree.
\<close>

fun np_vstack :: "ndarray \<Rightarrow> real list \<Rightarrow> error + ndarray" where
  "np_vstack (Vec a) v =
     (if length a = length v then Inr (Mat 2 (length a) [a, v])
      else Inl (ValueError ''all the input array dimensions must match exactly''))"
| "np_vstack (Mat r c rows) v =
     (if c = length v then Inr (Mat (Suc r) c (rows @ [v]))
      else Inl (ValueError ''all the input array dimensions must match exactly''))"

text \<open>\<^verbatim>\<open>a.T\<close>: an array of one axis is unchanged.\<close>

fun np_transpose :: "ndarray \<Rightarrow> ndarray" where
  "np_transpose (Vec a) = Vec a"
| "np_transpose (Mat r c rows) =
     Mat c r (map (\<lambda>j. map (\<lambda>row. row ! j) rows) [0..<c])"

fun np_ravel :: "ndarray \<Rightarrow> real list" where
  "np_ravel (Vec a) = a"
| "np_ravel (Mat r c rows) = concat rows"

text \<open>
  \<^verbatim>\<open>a.reshape(n, 1)\<close>: the entries in row-major order as one column. \<open>n = -1\<close>
  asks numpy to infer the row count; any other \<open>n\<close> must be the number of
  entries.
\<close>

definition np_reshape_column :: "ndarray \<Rightarrow> int \<Rightarrow> error + ndarray" where
  "np_reshape_column a n =
     (let flat = np_ravel a in
      if n = - 1 then Inr (Mat (length flat) 1 (map (\<lambda>x. [x]) flat))
      else if n < 0 \<or> int (length flat) \<noteq> n
        then Inl (ValueError ''cannot reshape array'')
      else Inr (Mat (nat n) 1 (map (\<lambda>x. [x]) flat)))"

subsection \<open>Datasets\<close>

text \<open>
  A Python dict with string keys is an association list in insertion order.
  \<open>dict_get\<close> is \<^verbatim>\<open>d[k]\<close> (KeyError on a missing key), \<open>dict_set\<close> is
  \<^verbatim>\<open>d[k] = v\<close> (an existing key keeps its place, a new one goes last), and
  \<open>dict_keys\<close> is \<^verbatim>\<open>list(dict.keys(d))\<close>.
\<close>

type_synonym 'v dict = "(string \<times> 'v) list"

definition dict_get :: "'v dict \<Rightarrow> string \<Rightarrow> error + 'v" where
  "dict_get d k = (case map_of d k of None \<Rightarrow> Inl (KeyError k) | Some v \<Rightarrow> Inr v)"

fun dict_set :: "'v dict \<Rightarrow> string \<Rightarrow> 'v \<Rightarrow> 'v dict" where
  "dict_set [] k v = [(k, v)]"
| "dict_set (p # ps) k v = (if fst p = k then (k, v) # ps else p # dict_set ps k v)"

definition dict_keys :: "'v dict \<Rightarrow> string list" where
  "dict_keys d = map fst d"

text \<open>The dict \<^verbatim>\<open>{'features': {...}, 'response': {...}}\<close>.\<close>

record dataset =
  features :: "real list dict"
  response :: "real list dict"

subsection \<open>Decimal numerals: Python's str on an int\<close>

function str_nat :: "nat \<Rightarrow> string" where
  "str_nat n =
     (if n < 10 then [''0123456789'' ! n]
      else str_nat (n div 10) @ [''0123456789'' ! (n mod 10)])"
  by pat_completeness auto
termination
  by (relation "measure id") auto

declare str_nat.simps [simp del]

definition str_int :: "int \<Rightarrow> string" where
  "str_int i = (if i < 0 then ''-'' @ str_nat (nat (- i)) else str_nat (nat i))"

subsection \<open>selectData\<close>

text \<open>
  The loop of selectData over the rest of the feature set; \<open>acc\<close> is
  \<^verbatim>\<open>partialData['features']\<close> so far.
\<close>

fun selectData_loop :: "real list dict \<Rightarrow> int list \<Rightarrow> real list dict \<Rightarrow> error + real list dict" where
  "selectData_loop fm [] acc = Inr acc"
| "selectData_loop fm (feature # rest) acc =
     (let currKey = ''X'' @ str_int feature
      in case dict_get fm currKey of
           Inl e \<Rightarrow> Inl e
         | Inr v \<Rightarrow> selectData_loop fm rest (dict_set acc currKey v))"

definition selectData :: "dataset \<Rightarrow> int list \<Rightarrow> error + dataset" where
  "selectData data featureSet =
     (case selectData_loop (features data) featureSet [] of
        Inl e \<Rightarrow> Inl e
      | Inr fs \<Rightarrow> Inr \<lparr>features = fs, response = []\<rparr>)"

subsection \<open>constructMuMatrix\<close>

definition constructMuMatrix :: "int list \<Rightarrow> error + ndarray" where
  "constructMuMatrix featureSet =
     (let numFeatures = int (length featureSet) + 1
      in case np_zeros numFeatures of
           Inl e \<Rightarrow> Inl e
         | Inr z \<Rightarrow> np_reshape_column (Vec z) numFeatures)"

subsection \<open>constructDesignMatrix\<close>

text \<open>The stacking loop over the rest of the keys.\<close>

fun stack_features :: "real list dict \<Rightarrow> string list \<Rightarrow> ndarray \<Rightarrow> error + ndarray" where
  "stack_features fm [] designMatrix = Inr designMatrix"
| "stack_features fm (feature # rest) designMatrix =
     (case dict_get fm feature of
        Inl e \<Rightarrow> Inl e
      | Inr currFeatureVector \<Rightarrow>
          (case np_vstack designMatrix currFeatureVector of
             Inl e \<Rightarrow> Inl e
           | Inr designMatrix' \<Rightarrow> stack_features fm rest designMatrix'))"

definition constructDesignMatrix :: "dataset \<Rightarrow> int \<Rightarrow> error + ndarray" where
  "constructDesignMatrix data num_samples =
     (case np_ones num_samples of
        Inl e \<Rightarrow> Inl e
      | Inr ones_vector \<Rightarrow>
          let currFeatures = dict_keys (features data)
          in case stack_features (features data) currFeatures (Vec ones_vector) of
               Inl e \<Rightarrow> Inl e
             | Inr designMatrix \<Rightarrow>
                 if length currFeatures < 1
                 then np_reshape_column (np_transpose designMatrix) num_samples
                 else Inr (np_transpose designMatrix))"

subsection \<open>generateInitialFeatureSet\<close>

text \<open>
  The generator's permutation of a pool: draw a position, take the element
  there, go on with the rest. \<open>rnd i\<close> is the \<open>i\<close>-th raw draw. Every order of
  the pool comes from some \<open>rnd\<close>.
\<close>

function np_random_permutation :: "(nat \<Rightarrow> nat) \<Rightarrow> nat \<Rightarrow> int list \<Rightarrow> int list" where
  "np_random_permutation rnd i pool =
     (if pool = [] then []
      else let j = rnd i mod length pool
           in pool ! j # np_random_permutation rnd (Suc i) (take j pool @ drop (Suc j) pool))"
  by pat_completeness auto
termination
proof (relation "measure (\<lambda>(rnd, i, pool). length pool)", goal_cases)
  case 1
  show ?case by simp
next
  case (2 rnd i pool j)
  then have "j < length pool" by simp
  then have "min (length pool) j + (length pool - Suc j) < length pool"
    by arith
  then show ?case by simp
qed

declare np_random_permutation.simps [simp del]

text \<open>
  \<^verbatim>\<open>np.random.choice(a, size, replace=False)\<close> with integers \<open>a\<close> and \<open>size\<close>
  (here \<open>pop_size\<close> and \<open>sample_size\<close>):
  numpy's checks in numpy's order, then the first \<open>sample_size\<close> entries of a
  permutation of \<open>0, ..., a - 1\<close>.
\<close>

definition np_random_choice_noreplace :: "int \<Rightarrow> int \<Rightarrow> (nat \<Rightarrow> nat) \<Rightarrow> error + int list" where
  "np_random_choice_noreplace pop_size sample_size rnd =
     (if pop_size \<le> 0 \<and> sample_size \<noteq> 0
        then Inl (ValueError ''a must be greater than 0 unless no samples are taken'')
      else if sample_size > pop_size
        then Inl (ValueError ''Cannot take a larger sample than population when replace is False'')
      else if sample_size < 0
        then Inl (ValueError ''negative dimensions are not allowed'')
      else Inr (take (nat sample_size) (np_random_permutation rnd 0 (np_arange pop_size))))"

definition generateInitialFeatureSet :: "int \<Rightarrow> int \<Rightarrow> (nat \<Rightarrow> nat) \<Rightarrow> error + int list" where
  "generateInitialFeatureSet numFeatures fanInRestriction rnd =
     (case np_random_choice_noreplace numFeatures fanInRestriction rnd of
        Inl e \<Rightarrow> Inl e
      | Inr randomIdx \<Rightarrow> Inr (np_add randomIdx 1))"

section \<open>Facts about the numpy operations\<close>

lemma set_np_setdiff1d: "set (np_setdiff1d ar1 ar2) = set ar1 - set ar2"
  by (auto simp: np_setdiff1d_def)

lemma distinct_np_setdiff1d: "distinct (np_setdiff1d ar1 ar2)"
  by (simp add: np_setdiff1d_def)

lemma sorted_np_setdiff1d: "sorted (np_setdiff1d ar1 ar2)"
  by (simp add: np_setdiff1d_def)

lemma length_np_setdiff1d_single:
  assumes "distinct ar1" and "x \<in> set ar1"
  shows "length (np_setdiff1d ar1 [x]) = length ar1 - 1"
proof -
  have "length (np_setdiff1d ar1 [x]) = card (set (np_setdiff1d ar1 [x]))"
    using distinct_np_setdiff1d by (simp add: distinct_card)
  also have "\<dots> = card (set ar1 - {x})"
    by (simp add: set_np_setdiff1d)
  also have "\<dots> = card (set ar1) - 1"
    using assms(2) by simp
  also have "\<dots> = length ar1 - 1"
    using assms(1) by (simp add: distinct_card)
  finally show ?thesis .
qed

lemma set_all_features: "set (np_add (np_arange n) 1) = {1..n}"
proof
  show "set (np_add (np_arange n) 1) \<subseteq> {1..n}"
    by (auto simp: np_add_def np_arange_def)
next
  show "{1..n} \<subseteq> set (np_add (np_arange n) 1)"
  proof
    fix x assume "x \<in> {1..n}"
    then have "nat (x - 1) < nat n" and "int (nat (x - 1)) + 1 = x"
      by auto
    then have "x \<in> (\<lambda>k. int k + 1) ` {0..<nat n}"
      by (metis atLeastLessThan_iff image_eqI le0)
    then show "x \<in> set (np_add (np_arange n) 1)"
      by (simp add: np_add_def np_arange_def image_image)
  qed
qed

lemma np_random_choice_mem:
  "np_random_choice a r = Inr x \<Longrightarrow> x \<in> set a"
  by (auto simp: np_random_choice_def split: if_splits)

lemma np_random_choice_nonempty:
  "a \<noteq> [] \<Longrightarrow> \<exists>x. np_random_choice a r = Inr x \<and> x \<in> set a"
  by (simp add: np_random_choice_def)

lemma np_random_choice_empty:
  "np_random_choice [] r = Inl (ValueError ''a must be non-empty'')"
  by (simp add: np_random_choice_def)

section \<open>The delete move\<close>

text \<open>
  C4. For a feature set of distinct ids with \<open>2 \<le> |\<Pi>| \<le> fanInRestriction\<close> and
  every draw, deleteMove returns a set with \<open>|\<Pi>| - 1\<close> elements that is a strict
  subset of \<open>\<Pi>\<close>: exactly the drawn element is removed.
\<close>

theorem deleteMove_removes_drawn:
  assumes "distinct featureSet"
    and "2 \<le> length featureSet"
    and "int (length featureSet) \<le> fanInRestriction"
  shows "\<exists>res elToDel.
           deleteMove featureSet numFeatures fanInRestriction r = Inr res
         \<and> np_random_choice featureSet r = Inr elToDel
         \<and> elToDel \<in> set featureSet
         \<and> set res = set featureSet - {elToDel}
         \<and> set res \<subset> set featureSet
         \<and> distinct res
         \<and> length res = length featureSet - 1"
proof -
  from assms(2) have ne: "featureSet \<noteq> []" by auto
  then obtain x where x: "np_random_choice featureSet r = Inr x" "x \<in> set featureSet"
    using np_random_choice_nonempty by blast
  let ?res = "np_setdiff1d featureSet [x]"
  have run: "deleteMove featureSet numFeatures fanInRestriction r = Inr ?res"
    using assms(2) x(1) by (simp add: deleteMove_def)
  have s: "set ?res = set featureSet - {x}"
    by (simp add: set_np_setdiff1d)
  have sub: "set ?res \<subset> set featureSet"
    using s x(2) by auto
  have len: "length ?res = length featureSet - 1"
    using assms(1) x(2) by (rule length_np_setdiff1d_single)
  show ?thesis
    using run x s sub len distinct_np_setdiff1d by blast
qed

theorem deleteMove_removes_drawn_witness:
  "distinct [2, 4, 6 :: int] \<and> 2 \<le> length [2, 4, 6 :: int]
   \<and> int (length [2, 4, 6 :: int]) \<le> 3
   \<and> deleteMove [2, 4, 6] 6 3 1 = Inr [2, 6]
   \<and> (\<exists>res elToDel.
           deleteMove [2, 4, 6] 6 3 1 = Inr res
         \<and> np_random_choice [2, 4, 6] 1 = Inr elToDel
         \<and> elToDel \<in> set [2, 4, 6]
         \<and> set res = set [2, 4, 6] - {elToDel}
         \<and> set res \<subset> set [2, 4, 6]
         \<and> distinct res
         \<and> length res = length [2, 4, 6 :: int] - 1)"
proof -
  have d: "distinct [2, 4, 6 :: int]" by simp
  have l: "2 \<le> length [2, 4, 6 :: int]" by simp
  have u: "int (length [2, 4, 6 :: int]) \<le> 3" by simp
  have v: "deleteMove [2, 4, 6] 6 3 1 = Inr [2, 6]"
    by (simp add: deleteMove_def np_random_choice_def np_setdiff1d_def)
  show ?thesis
    using d l u v deleteMove_removes_drawn [OF d l u, of 6 1] by blast
qed

section \<open>The add move\<close>

lemma np_random_choice_cases:
  "(a = [] \<and> np_random_choice a r = Inl (ValueError ''a must be non-empty''))
   \<or> (\<exists>x. x \<in> set a \<and> np_random_choice a r = Inr x)"
  by (cases "a = []") (simp_all add: np_random_choice_def)

lemma addMove_result:
  assumes "addMove featureSet numFeatures fanInRestriction r = Inr res"
  shows "int (length featureSet) \<le> fanInRestriction - 1
       \<and> (\<exists>x. res = featureSet @ [x] \<and> x \<in> {1..numFeatures} \<and> x \<notin> set featureSet)"
proof -
  let ?pool = "np_setdiff1d (np_add (np_arange numFeatures) 1) featureSet"
  from assms have pre: "int (length featureSet) \<le> fanInRestriction - 1"
    by (auto simp: addMove_def split: if_splits)
  with assms obtain x where x: "np_random_choice ?pool r = Inr x" "res = featureSet @ [x]"
    by (auto simp: addMove_def Let_def np_append_def split: sum.splits)
  from x(1) have "x \<in> set ?pool" by (rule np_random_choice_mem)
  then have "x \<in> {1..numFeatures}" "x \<notin> set featureSet"
    by (simp_all add: set_np_setdiff1d set_all_features)
  with pre x(2) show ?thesis by blast
qed

lemma addMove_empty_pool:
  assumes "int (length featureSet) \<le> fanInRestriction - 1"
    and "{1..numFeatures} \<subseteq> set featureSet"
  shows "addMove featureSet numFeatures fanInRestriction r = Inl (ValueError ''a must be non-empty'')"
proof -
  have "set (np_setdiff1d (np_add (np_arange numFeatures) 1) featureSet) = {}"
    using assms(2) by (simp add: set_np_setdiff1d set_all_features)
  then have "np_setdiff1d (np_add (np_arange numFeatures) 1) featureSet = []"
    by simp
  then show ?thesis
    using assms(1) by (simp add: addMove_def np_random_choice_def)
qed

lemma addMove_nonempty_pool:
  assumes "int (length featureSet) \<le> fanInRestriction - 1"
    and "x \<in> {1..numFeatures}" and "x \<notin> set featureSet"
  shows "\<exists>res. addMove featureSet numFeatures fanInRestriction r = Inr res"
proof -
  let ?pool = "np_setdiff1d (np_add (np_arange numFeatures) 1) featureSet"
  have "x \<in> set ?pool"
    using assms(2,3) by (simp add: set_np_setdiff1d set_all_features)
  then have "?pool \<noteq> []" by auto
  then obtain y where "np_random_choice ?pool r = Inr y"
    using np_random_choice_nonempty by blast
  then show ?thesis
    using assms(1) by (simp add: addMove_def)
qed

lemma room_in_universe:
  assumes "distinct xs" and "set xs \<subseteq> {1..n}" and "int (length xs) < n"
  shows "\<exists>x. x \<in> {1..n} \<and> x \<notin> set xs"
proof (rule ccontr)
  assume "\<not> ?thesis"
  then have "{1..n} \<subseteq> set xs" by auto
  with assms(2) have "set xs = {1..n}" by auto
  then have "card (set xs) = card {1..n}" by simp
  then have "length xs = nat n" using assms(1) by (simp add: distinct_card)
  with assms(3) show False by (simp split: if_splits)
qed

text \<open>
  C3. For a feature set of distinct ids in \<open>[1, numFeatures]\<close> with
  \<open>|\<Pi>| \<le> fanInRestriction - 1\<close> and \<open>numFeatures > |\<Pi>|\<close>, and every draw, addMove
  returns \<open>\<Pi>\<close> with one element appended: the result has \<open>|\<Pi>| + 1\<close> elements, is
  a strict superset of \<open>\<Pi>\<close>, and the added element lies in
  \<open>[1, numFeatures]\<close> outside \<open>\<Pi>\<close>.
\<close>

theorem addMove_adds_fresh:
  assumes "distinct featureSet"
    and "set featureSet \<subseteq> {1..numFeatures}"
    and "int (length featureSet) \<le> fanInRestriction - 1"
    and "int (length featureSet) < numFeatures"
  shows "\<exists>res x.
           addMove featureSet numFeatures fanInRestriction r = Inr res
         \<and> res = featureSet @ [x]
         \<and> x \<in> {1..numFeatures} - set featureSet
         \<and> length res = length featureSet + 1
         \<and> distinct res
         \<and> set featureSet \<subset> set res"
proof -
  obtain y where "y \<in> {1..numFeatures}" "y \<notin> set featureSet"
    using room_in_universe [OF assms(1,2,4)] by blast
  then obtain res where res: "addMove featureSet numFeatures fanInRestriction r = Inr res"
    using addMove_nonempty_pool [OF assms(3)] by blast
  then obtain x where x: "res = featureSet @ [x]" "x \<in> {1..numFeatures}" "x \<notin> set featureSet"
    using addMove_result by blast
  have "distinct res" using x assms(1) by simp
  moreover have "set featureSet \<subset> set res" using x by auto
  ultimately show ?thesis using res x by auto
qed

theorem addMove_adds_fresh_witness:
  "distinct [2, 4 :: int] \<and> set [2, 4] \<subseteq> {1..6 :: int}
   \<and> int (length [2, 4 :: int]) \<le> 3 - 1 \<and> int (length [2, 4 :: int]) < 6
   \<and> addMove [2, 4] 6 3 1 = Inr [2, 4, 3]
   \<and> (\<exists>res x.
           addMove [2, 4] 6 3 1 = Inr res
         \<and> res = [2, 4] @ [x]
         \<and> x \<in> {1..6} - set [2, 4]
         \<and> length res = length [2, 4 :: int] + 1
         \<and> distinct res
         \<and> set [2, 4] \<subset> set res)"
proof -
  have a: "distinct [2, 4 :: int]" by simp
  have b: "set [2, 4] \<subseteq> {1..6 :: int}" by simp
  have c: "int (length [2, 4 :: int]) \<le> 3 - 1" by simp
  have d: "int (length [2, 4 :: int]) < 6" by simp
  have v: "addMove [2, 4] 6 3 1 = Inr [2, 4, 3]"
    by (simp add: addMove_def np_random_choice_def np_setdiff1d_def np_add_def
        np_arange_def np_append_def upt_rec)
  show ?thesis
    using a b c d v addMove_adds_fresh [OF a b c d, of 1] by blast
qed

text \<open>
  C10. When the precondition \<open>|featureSet| \<le> fanInRestriction - 1\<close> holds but
  featureSet already contains every id of \<open>[1, numFeatures]\<close>, the candidate pool
  is empty and addMove raises the error of sampling an empty array; and whenever
  addMove returns, the result is the feature set with one element appended that
  lies in \<open>[1, numFeatures]\<close> and outside the feature set.
\<close>

theorem addMove_empty_pool_raises:
  "(int (length featureSet) \<le> fanInRestriction - 1 \<and> {1..numFeatures} \<subseteq> set featureSet
      \<longrightarrow> addMove featureSet numFeatures fanInRestriction r
            = Inl (ValueError ''a must be non-empty''))
   \<and> (\<forall>res. addMove featureSet numFeatures fanInRestriction r = Inr res
      \<longrightarrow> (\<exists>x. res = featureSet @ [x] \<and> x \<in> {1..numFeatures} \<and> x \<notin> set featureSet))"
  using addMove_empty_pool addMove_result by blast

theorem addMove_empty_pool_raises_witness:
  "(int (length [2, 1 :: int]) \<le> 3 - 1 \<and> {1..2} \<subseteq> set [2, 1 :: int])
   \<and> addMove [2, 1] 2 3 5 = Inl (ValueError ''a must be non-empty'')
   \<and> addMove [2, 1] 3 3 5 = Inr [2, 1, 3]
   \<and> (\<exists>x. [2, 1, 3] = [2, 1] @ [x] \<and> x \<in> {1..3 :: int} \<and> x \<notin> set [2, 1])"
proof -
  have a: "int (length [2, 1 :: int]) \<le> 3 - 1 \<and> {1..2} \<subseteq> set [2, 1 :: int]"
    by auto
  have v: "addMove [2, 1] 3 3 5 = Inr [2, 1, 3]"
    by (simp add: addMove_def np_random_choice_def np_setdiff1d_def np_add_def
        np_arange_def np_append_def upt_rec)
  show ?thesis
    using a v addMove_empty_pool_raises [of "[2, 1]" 3 2 5]
      addMove_empty_pool_raises [of "[2, 1]" 3 3 5]
    by blast
qed

section \<open>The precondition errors of the moves\<close>

lemma deleteMove_returns:
  "2 \<le> length featureSet \<Longrightarrow> \<exists>res. deleteMove featureSet numFeatures fanInRestriction r = Inr res"
  by (auto simp: deleteMove_def np_random_choice_def)

lemma exchangeMove_error_cases:
  assumes "featureSet \<noteq> []"
    and "exchangeMove featureSet numFeatures fanInRestriction r1 r2 = Inl e"
  shows "e = ValueError ''a must be non-empty''"
proof -
  from assms(1) obtain el where el: "np_random_choice featureSet r1 = Inr el"
    using np_random_choice_nonempty by blast
  let ?pool = "np_setdiff1d (np_add (np_arange numFeatures) 1) [el]"
  from np_random_choice_cases [of ?pool r2] show ?thesis
    using assms el by (auto simp: exchangeMove_def Let_def)
qed

lemma addMove_error_cases:
  assumes "int (length featureSet) \<le> fanInRestriction - 1"
    and "addMove featureSet numFeatures fanInRestriction r = Inl e"
  shows "e = ValueError ''a must be non-empty''"
proof -
  let ?pool = "np_setdiff1d (np_add (np_arange numFeatures) 1) featureSet"
  from np_random_choice_cases [of ?pool r] show ?thesis
    using assms by (auto simp: addMove_def Let_def)
qed

text \<open>
  C5. Each move raises its own ValueError exactly when its precondition fails:
  deleteMove when \<open>|featureSet| < 2\<close>, with the message that an element cannot be
  deleted when the cardinality is below 2 (and it raises nothing else);
  addMove when \<open>|featureSet| > fanInRestriction - 1\<close>, with the message about the
  fan-in restriction; exchangeMove when the feature set is empty. In each of
  these cases the move returns an error, not a feature set.
\<close>

theorem moves_raise_at_precondition:
  "((deleteMove featureSet numFeatures fanInRestriction r
       = Inl (ValueError ''You cannot delete an element when the card(Pi) is <2.''))
     = (length featureSet < 2))
   \<and> ((\<exists>e. deleteMove featureSet numFeatures fanInRestriction r = Inl e)
     = (length featureSet < 2))
   \<and> ((addMove featureSet numFeatures fanInRestriction r
       = Inl (ValueError
           ''The cardinality of the feature set cannot be more than the fan-in restriction.''))
     = (int (length featureSet) > fanInRestriction - 1))
   \<and> ((exchangeMove featureSet numFeatures fanInRestriction r1 r2
       = Inl (ValueError
           ''You must have at least one element on the feature set to be able to exchange it.''))
     = (length featureSet < 1))"
proof (intro conjI)
  show "(deleteMove featureSet numFeatures fanInRestriction r
       = Inl (ValueError ''You cannot delete an element when the card(Pi) is <2.''))
     = (length featureSet < 2)"
    using deleteMove_returns [of featureSet numFeatures fanInRestriction r]
    by (cases "length featureSet < 2") (auto simp: deleteMove_def)
next
  show "(\<exists>e. deleteMove featureSet numFeatures fanInRestriction r = Inl e)
     = (length featureSet < 2)"
    using deleteMove_returns [of featureSet numFeatures fanInRestriction r]
    by (cases "length featureSet < 2") (auto simp: deleteMove_def)
next
  show "(addMove featureSet numFeatures fanInRestriction r
       = Inl (ValueError
           ''The cardinality of the feature set cannot be more than the fan-in restriction.''))
     = (int (length featureSet) > fanInRestriction - 1)"
  proof (cases "int (length featureSet) > fanInRestriction - 1")
    case True
    then show ?thesis by (simp add: addMove_def)
  next
    case False
    then have "addMove featureSet numFeatures fanInRestriction r
       \<noteq> Inl (ValueError
           ''The cardinality of the feature set cannot be more than the fan-in restriction.'')"
      using addMove_error_cases [of featureSet fanInRestriction numFeatures r] by fastforce
    with False show ?thesis by simp
  qed
next
  show "(exchangeMove featureSet numFeatures fanInRestriction r1 r2
       = Inl (ValueError
           ''You must have at least one element on the feature set to be able to exchange it.''))
     = (length featureSet < 1)"
  proof (cases "featureSet = []")
    case True
    then show ?thesis by (simp add: exchangeMove_def)
  next
    case False
    then have "exchangeMove featureSet numFeatures fanInRestriction r1 r2
       \<noteq> Inl (ValueError
           ''You must have at least one element on the feature set to be able to exchange it.'')"
      using exchangeMove_error_cases [of featureSet numFeatures fanInRestriction r1 r2] by fastforce
    with False show ?thesis by simp
  qed
qed

theorem moves_raise_at_precondition_witness:
  "deleteMove [4] 6 3 0 = Inl (ValueError ''You cannot delete an element when the card(Pi) is <2.'')
   \<and> (\<exists>e. deleteMove [4] 6 3 0 = Inl e)
   \<and> addMove [2, 4, 6] 6 3 0 = Inl (ValueError
           ''The cardinality of the feature set cannot be more than the fan-in restriction.'')
   \<and> exchangeMove [] 6 3 0 0 = Inl (ValueError
           ''You must have at least one element on the feature set to be able to exchange it.'')
   \<and> deleteMove [2, 4] 6 3 0 \<noteq> Inl (ValueError ''You cannot delete an element when the card(Pi) is <2.'')
   \<and> addMove [2, 4] 6 3 0 \<noteq> Inl (ValueError
           ''The cardinality of the feature set cannot be more than the fan-in restriction.'')
   \<and> exchangeMove [2] 6 3 0 0 \<noteq> Inl (ValueError
           ''You must have at least one element on the feature set to be able to exchange it.'')"
  using moves_raise_at_precondition [of "[4]" 6 3 0 0 0]
    moves_raise_at_precondition [of "[2, 4, 6]" 6 3 0 0 0]
    moves_raise_at_precondition [of "[]" 6 3 0 0 0]
    moves_raise_at_precondition [of "[2, 4]" 6 3 0 0 0]
    moves_raise_at_precondition [of "[2]" 6 3 0 0 0]
  by simp

section \<open>The exchange move\<close>

lemma exchangeMove_result:
  assumes "exchangeMove featureSet numFeatures fanInRestriction r1 r2 = Inr res"
  shows "\<exists>elToExchange elToAdd.
           np_random_choice featureSet r1 = Inr elToExchange
         \<and> elToExchange \<in> set featureSet
         \<and> elToAdd \<in> {1..numFeatures} - {elToExchange}
         \<and> res = np_setdiff1d featureSet [elToExchange] @ [elToAdd]"
proof -
  from assms have ne: "featureSet \<noteq> []"
    by (auto simp: exchangeMove_def split: if_splits)
  then obtain el where el: "np_random_choice featureSet r1 = Inr el" "el \<in> set featureSet"
    using np_random_choice_nonempty by blast
  let ?pool = "np_setdiff1d (np_add (np_arange numFeatures) 1) [el]"
  from assms ne el(1) obtain x where x: "np_random_choice ?pool r2 = Inr x"
    "res = np_setdiff1d featureSet [el] @ [x]"
    by (auto simp: exchangeMove_def Let_def np_append_def split: sum.splits)
  from x(1) have "x \<in> set ?pool" by (rule np_random_choice_mem)
  then have "x \<in> {1..numFeatures} - {el}"
    by (simp add: set_np_setdiff1d set_all_features)
  with el x(2) show ?thesis by blast
qed

lemma exchangeMove_drops_removed:
  assumes "exchangeMove featureSet numFeatures fanInRestriction r1 r2 = Inr res"
    and "np_random_choice featureSet r1 = Inr elToExchange"
  shows "elToExchange \<notin> set res"
proof -
  from exchangeMove_result [OF assms(1)] assms(2)
  obtain elToAdd where "elToAdd \<in> {1..numFeatures} - {elToExchange}"
    "res = np_setdiff1d featureSet [elToExchange] @ [elToAdd]"
    by auto
  then show ?thesis by (auto simp: set_np_setdiff1d)
qed

lemma exchangeMove_returns:
  assumes "featureSet \<noteq> []" and "set featureSet \<subseteq> {1..numFeatures}" and "2 \<le> numFeatures"
  shows "\<exists>res. exchangeMove featureSet numFeatures fanInRestriction r1 r2 = Inr res"
proof -
  from assms(1) obtain el where el: "np_random_choice featureSet r1 = Inr el"
    using np_random_choice_nonempty by blast
  let ?pool = "np_setdiff1d (np_add (np_arange numFeatures) 1) [el]"
  have "1 \<in> set ?pool \<or> 2 \<in> set ?pool"
    using assms(3) by (auto simp: set_np_setdiff1d set_all_features)
  then have "?pool \<noteq> []" by auto
  then obtain x where "np_random_choice ?pool r2 = Inr x"
    using np_random_choice_nonempty by blast
  with el assms(1) show ?thesis
    by (simp add: exchangeMove_def Let_def)
qed

text \<open>
  C1 as stated: some feature set of size at least 1 and some pair of draws make
  exchangeMove return a set that contains the element it just removed. No input
  does: the pool the added element is drawn from excludes the removed element.
\<close>

theorem exchangeMove_reselect_counterexample:
  "\<not> (\<exists>featureSet numFeatures fanInRestriction r1 r2 elToExchange res.
        1 \<le> length featureSet
      \<and> np_random_choice featureSet r1 = Inr elToExchange
      \<and> exchangeMove featureSet numFeatures fanInRestriction r1 r2 = Inr res
      \<and> elToExchange \<in> set res)"
  using exchangeMove_drops_removed by blast

text \<open>
  C1, amended. A set returned by exchangeMove never contains the element the
  move removed: what is returned is the feature set without the removed
  element, followed by one added element, and the added element is an id of
  \<open>[1, numFeatures]\<close> other than the removed one. The added element can be one
  that is still in the set: on \<open>[1, 2]\<close> with two features, removing 1 and
  drawing from the pool \<open>[2]\<close> returns \<open>[2, 2]\<close>.
\<close>

theorem exchangeMove_never_reselects:
  "(\<forall>res. exchangeMove featureSet numFeatures fanInRestriction r1 r2 = Inr res
       \<longrightarrow> (\<exists>elToExchange. np_random_choice featureSet r1 = Inr elToExchange))
   \<and> (\<forall>res elToExchange.
       exchangeMove featureSet numFeatures fanInRestriction r1 r2 = Inr res
     \<and> np_random_choice featureSet r1 = Inr elToExchange
     \<longrightarrow> elToExchange \<in> set featureSet \<and> elToExchange \<notin> set res
       \<and> set (np_setdiff1d featureSet [elToExchange]) = set featureSet - {elToExchange}
       \<and> (\<exists>elToAdd. elToAdd \<in> {1..numFeatures} - {elToExchange}
              \<and> res = np_setdiff1d featureSet [elToExchange] @ [elToAdd]))
   \<and> np_random_choice [1, 2] 0 = Inr 1
   \<and> exchangeMove [1, 2] 2 3 0 0 = Inr [2, 2]"
proof (intro conjI allI impI)
  fix res
  assume "exchangeMove featureSet numFeatures fanInRestriction r1 r2 = Inr res"
  from exchangeMove_result [OF this]
  show "\<exists>elToExchange. np_random_choice featureSet r1 = Inr elToExchange" by blast
next
  fix res elToExchange
  assume a: "exchangeMove featureSet numFeatures fanInRestriction r1 r2 = Inr res
     \<and> np_random_choice featureSet r1 = Inr elToExchange"
  then show "elToExchange \<in> set featureSet" by (auto dest: np_random_choice_mem)
  from a show "elToExchange \<notin> set res" using exchangeMove_drops_removed by blast
  show "set (np_setdiff1d featureSet [elToExchange]) = set featureSet - {elToExchange}"
    by (simp add: set_np_setdiff1d)
  from a have run: "exchangeMove featureSet numFeatures fanInRestriction r1 r2 = Inr res"
    and ch: "np_random_choice featureSet r1 = Inr elToExchange" by simp_all
  from exchangeMove_result [OF run] ch
  show "\<exists>elToAdd. elToAdd \<in> {1..numFeatures} - {elToExchange}
              \<and> res = np_setdiff1d featureSet [elToExchange] @ [elToAdd]"
    by auto
next
  show "np_random_choice [1, 2] 0 = Inr 1" by (simp add: np_random_choice_def)
next
  show "exchangeMove [1, 2] 2 3 0 0 = Inr [2, 2]"
    by (simp add: exchangeMove_def np_random_choice_def np_setdiff1d_def np_add_def
        np_arange_def np_append_def upt_rec)
qed

theorem exchangeMove_never_reselects_witness:
  "exchangeMove [2, 4, 6] 6 3 1 2 = Inr [2, 6, 3]
   \<and> np_random_choice [2, 4, 6] 1 = Inr 4
   \<and> 4 \<in> set [2, 4, 6 :: int] \<and> 4 \<notin> set [2, 6, 3 :: int]
   \<and> set (np_setdiff1d [2, 4, 6] [4]) = set [2, 4, 6] - {4}
   \<and> (\<exists>elToAdd. elToAdd \<in> {1..6} - {4}
          \<and> [2, 6, 3] = np_setdiff1d [2, 4, 6] [4] @ [elToAdd])"
proof -
  have v: "exchangeMove [2, 4, 6] 6 3 1 2 = Inr [2, 6, 3]"
    by (simp add: exchangeMove_def np_random_choice_def np_setdiff1d_def np_add_def
        np_arange_def np_append_def upt_rec)
  have c: "np_random_choice [2, 4, 6] 1 = Inr 4" by (simp add: np_random_choice_def)
  show ?thesis
    using v c exchangeMove_never_reselects [of "[2, 4, 6]" 6 3 1 2] by blast
qed

text \<open>
  C2 as stated: for every feature set of distinct ids in \<open>[1, numFeatures]\<close>
  with at least one element and every pair of draws, exchangeMove succeeds and
  returns a set with exactly \<open>|\<Pi>|\<close> elements. With one feature the pool is empty
  and the move raises; and on \<open>[1, 2]\<close> with two features the returned array
  \<open>[2, 2]\<close> has two entries but one element.
\<close>

theorem exchangeMove_cardinality_counterexample:
  "distinct [1 :: int] \<and> set [1] \<subseteq> {1..1 :: int} \<and> 1 \<le> length [1 :: int]
   \<and> exchangeMove [1] 1 3 0 0 = Inl (ValueError ''a must be non-empty'')
   \<and> distinct [1, 2 :: int] \<and> set [1, 2] \<subseteq> {1..2 :: int}
   \<and> exchangeMove [1, 2] 2 3 0 0 = Inr [2, 2]
   \<and> card (set [2, 2 :: int]) \<noteq> length [1, 2 :: int]"
  by (simp add: exchangeMove_def np_random_choice_def np_setdiff1d_def np_add_def
        np_arange_def np_append_def upt_rec)

text \<open>
  C2, amended. For every feature set of distinct ids in \<open>[1, numFeatures]\<close> with
  at least one element, \<open>numFeatures \<ge> 2\<close> and every pair of draws, exchangeMove
  succeeds and returns an array of exactly \<open>|\<Pi>|\<close> entries: the remaining
  \<open>|\<Pi>| - 1\<close> ids and the added one. The entries are \<open>|\<Pi>|\<close> different ids when
  the added id is not among the remaining ones, and \<open>|\<Pi>| - 1\<close> different ids
  when it is.
\<close>

theorem exchangeMove_keeps_length:
  assumes "distinct featureSet"
    and "set featureSet \<subseteq> {1..numFeatures}"
    and "1 \<le> length featureSet"
    and "2 \<le> numFeatures"
  shows "\<exists>res elToExchange elToAdd.
           exchangeMove featureSet numFeatures fanInRestriction r1 r2 = Inr res
         \<and> np_random_choice featureSet r1 = Inr elToExchange
         \<and> res = np_setdiff1d featureSet [elToExchange] @ [elToAdd]
         \<and> set (np_setdiff1d featureSet [elToExchange]) = set featureSet - {elToExchange}
         \<and> length res = length featureSet
         \<and> card (set res) =
             (if elToAdd \<in> set featureSet then length featureSet - 1 else length featureSet)"
proof -
  from assms(3) have ne: "featureSet \<noteq> []" by auto
  then obtain res where res: "exchangeMove featureSet numFeatures fanInRestriction r1 r2 = Inr res"
    using exchangeMove_returns [OF _ assms(2,4)] by blast
  from exchangeMove_result [OF res] obtain el x where
    el: "np_random_choice featureSet r1 = Inr el" "el \<in> set featureSet"
    and x: "x \<in> {1..numFeatures} - {el}"
    and r: "res = np_setdiff1d featureSet [el] @ [x]"
    by blast
  let ?rest = "np_setdiff1d featureSet [el]"
  have s: "set ?rest = set featureSet - {el}" by (simp add: set_np_setdiff1d)
  have lrest: "length ?rest = length featureSet - 1"
    using assms(1) el(2) by (rule length_np_setdiff1d_single)
  have len: "length res = length featureSet"
    using r lrest assms(3) by simp
  have crest: "card (set ?rest) = length featureSet - 1"
    using lrest distinct_np_setdiff1d [of featureSet "[el]"] by (simp add: distinct_card)
  have xrest: "x \<in> set ?rest \<longleftrightarrow> x \<in> set featureSet"
    using s x by auto
  have "card (set res) = (if x \<in> set featureSet then length featureSet - 1 else length featureSet)"
  proof (cases "x \<in> set featureSet")
    case True
    then have "set res = set ?rest" using r xrest by auto
    with crest True show ?thesis by simp
  next
    case False
    then have "x \<notin> set ?rest" using xrest by simp
    then have "card (set res) = Suc (card (set ?rest))" using r by simp
    with crest False assms(3) show ?thesis by simp
  qed
  with res el(1) r s len show ?thesis by blast
qed

theorem exchangeMove_keeps_length_witness:
  "distinct [2, 4, 6 :: int] \<and> set [2, 4, 6] \<subseteq> {1..6 :: int}
   \<and> 1 \<le> length [2, 4, 6 :: int] \<and> (2 :: int) \<le> 6
   \<and> exchangeMove [2, 4, 6] 6 3 1 2 = Inr [2, 6, 3]
   \<and> (\<exists>res elToExchange elToAdd.
           exchangeMove [2, 4, 6] 6 3 1 2 = Inr res
         \<and> np_random_choice [2, 4, 6] 1 = Inr elToExchange
         \<and> res = np_setdiff1d [2, 4, 6] [elToExchange] @ [elToAdd]
         \<and> set (np_setdiff1d [2, 4, 6] [elToExchange]) = set [2, 4, 6] - {elToExchange}
         \<and> length res = length [2, 4, 6 :: int]
         \<and> card (set res) =
             (if elToAdd \<in> set [2, 4, 6] then length [2, 4, 6 :: int] - 1
              else length [2, 4, 6 :: int]))"
proof -
  have a: "distinct [2, 4, 6 :: int]" by simp
  have b: "set [2, 4, 6] \<subseteq> {1..6 :: int}" by simp
  have c: "1 \<le> length [2, 4, 6 :: int]" by simp
  have d: "(2 :: int) \<le> 6" by simp
  have v: "exchangeMove [2, 4, 6] 6 3 1 2 = Inr [2, 6, 3]"
    by (simp add: exchangeMove_def np_random_choice_def np_setdiff1d_def np_add_def
        np_arange_def np_append_def upt_rec)
  show ?thesis
    using a b c d v exchangeMove_keeps_length [OF a b c d, of 3 1 2] by blast
qed

section \<open>The prior mean vector\<close>

lemma constructMuMatrix_eq:
  "constructMuMatrix featureSet
     = Inr (Mat (length featureSet + 1) 1 (replicate (length featureSet + 1) [0]))"
proof -
  have "int (length featureSet) + 1 \<noteq> - 1" by simp
  then show ?thesis
    by (simp add: constructMuMatrix_def np_zeros_def np_reshape_column_def Let_def nat_add_distrib)
qed

text \<open>
  C7. For every feature set, the empty one included, constructMuMatrix returns a
  column vector (one column) of exactly \<open>|\<Pi>| + 1\<close> rows whose entries are all
  zero; two feature sets of the same cardinality give the same vector.
\<close>

theorem constructMuMatrix_zero_column:
  "(\<exists>rows. constructMuMatrix featureSet = Inr (Mat (length featureSet + 1) 1 rows)
       \<and> length rows = length featureSet + 1
       \<and> (\<forall>row \<in> set rows. row = [0]))
   \<and> (\<forall>featureSet'. length featureSet' = length featureSet
         \<longrightarrow> constructMuMatrix featureSet' = constructMuMatrix featureSet)
   \<and> constructMuMatrix [] = Inr (Mat 1 1 [[0]])"
  by (simp add: constructMuMatrix_eq)

theorem constructMuMatrix_zero_column_witness:
  "constructMuMatrix [2, 4, 6] = Inr (Mat 4 1 [[0], [0], [0], [0]])
   \<and> length [1, 3, 5 :: int] = length [2, 4, 6 :: int]
   \<and> constructMuMatrix [1, 3, 5] = constructMuMatrix [2, 4, 6]
   \<and> (\<exists>rows. constructMuMatrix [2, 4, 6] = Inr (Mat (length [2, 4, 6 :: int] + 1) 1 rows)
       \<and> length rows = length [2, 4, 6 :: int] + 1
       \<and> (\<forall>row \<in> set rows. row = [0]))"
proof -
  have v: "constructMuMatrix [2, 4, 6] = Inr (Mat 4 1 [[0], [0], [0], [0]])"
    by (simp add: constructMuMatrix_def np_zeros_def np_reshape_column_def Let_def numeral_eq_Suc)
  have l: "length [1, 3, 5 :: int] = length [2, 4, 6 :: int]" by simp
  show ?thesis
    using v l constructMuMatrix_zero_column [of "[2, 4, 6]"] by blast
qed

section \<open>The initial feature set\<close>

lemma np_random_permutation_props:
  "length (np_random_permutation rnd i pool) = length pool
   \<and> set (np_random_permutation rnd i pool) = set pool
   \<and> (distinct pool \<longrightarrow> distinct (np_random_permutation rnd i pool))"
proof (induction rnd i pool rule: np_random_permutation.induct)
  case (1 rnd i pool)
  show ?case
  proof (cases "pool = []")
    case True
    then show ?thesis by (simp add: np_random_permutation.simps)
  next
    case False
    define j where "j = rnd i mod length pool"
    define rest where "rest = take j pool @ drop (Suc j) pool"
    from False have jl: "j < length pool" by (simp add: j_def)
    have split: "pool = take j pool @ pool ! j # drop (Suc j) pool"
      using jl by (rule id_take_nth_drop)
    have unf: "np_random_permutation rnd i pool
                 = pool ! j # np_random_permutation rnd (Suc i) rest"
      using False by (subst np_random_permutation.simps) (simp add: Let_def j_def rest_def)
    have ih: "length (np_random_permutation rnd (Suc i) rest) = length rest
       \<and> set (np_random_permutation rnd (Suc i) rest) = set rest
       \<and> (distinct rest \<longrightarrow> distinct (np_random_permutation rnd (Suc i) rest))"
      using "1.IH" [OF False j_def] by (simp add: rest_def)
    have lrest: "Suc (length rest) = length pool"
      using jl by (simp add: rest_def min_def)
    have srest: "insert (pool ! j) (set rest) = set pool"
    proof -
      have "set pool = set (take j pool @ pool ! j # drop (Suc j) pool)"
        using split by simp
      then show ?thesis by (auto simp: rest_def)
    qed
    have drest: "distinct pool \<Longrightarrow> distinct rest \<and> pool ! j \<notin> set rest"
    proof -
      assume "distinct pool"
      then have "distinct (take j pool @ pool ! j # drop (Suc j) pool)"
        using split by simp
      then show ?thesis by (auto simp: rest_def)
    qed
    show ?thesis
      using unf ih lrest srest drest by auto
  qed
qed

lemma set_np_arange: "set (np_arange n) = {0..<n}"
proof
  show "set (np_arange n) \<subseteq> {0..<n}"
    by (auto simp: np_arange_def)
next
  show "{0..<n} \<subseteq> set (np_arange n)"
  proof
    fix x assume "x \<in> {0..<n}"
    then have "nat x < nat n" and "int (nat x) = x"
      by auto
    then have "x \<in> int ` {0..<nat n}"
      by (metis atLeastLessThan_iff image_eqI le0)
    then show "x \<in> set (np_arange n)"
      by (simp add: np_arange_def)
  qed
qed

lemma np_arange_props: "distinct (np_arange n) \<and> length (np_arange n) = nat n"
  by (simp add: np_arange_def distinct_map)

lemma generateInitialFeatureSet_ok:
  assumes "0 \<le> fanInRestriction" and "fanInRestriction \<le> numFeatures"
  shows "\<exists>res. generateInitialFeatureSet numFeatures fanInRestriction rnd = Inr res
             \<and> length res = nat fanInRestriction
             \<and> distinct res
             \<and> set res \<subseteq> {1..numFeatures}"
proof -
  let ?perm = "np_random_permutation rnd 0 (np_arange numFeatures)"
  let ?idx = "take (nat fanInRestriction) ?perm"
  have guard: "\<not> (numFeatures \<le> 0 \<and> fanInRestriction \<noteq> 0)"
    using assms by auto
  have run: "generateInitialFeatureSet numFeatures fanInRestriction rnd = Inr (np_add ?idx 1)"
    using assms guard
    by (auto simp: generateInitialFeatureSet_def np_random_choice_noreplace_def)
  have pl: "length ?perm = nat numFeatures"
    and ps: "set ?perm = {0..<numFeatures}"
    and pd: "distinct ?perm"
    using np_random_permutation_props [of rnd 0 "np_arange numFeatures"]
    by (simp_all add: np_arange_props set_np_arange)
  have len: "length (np_add ?idx 1) = nat fanInRestriction"
    using pl assms by (simp add: np_add_def)
  have "distinct ?idx" using pd by simp
  then have dist: "distinct (np_add ?idx 1)"
    by (simp add: np_add_def distinct_map)
  have "set ?idx \<subseteq> {0..<numFeatures}"
    using ps set_take_subset [of "nat fanInRestriction" ?perm] by simp
  then have rng: "set (np_add ?idx 1) \<subseteq> {1..numFeatures}"
    by (auto simp: np_add_def)
  show ?thesis using run len dist rng by blast
qed

lemma generateInitialFeatureSet_too_many:
  assumes "numFeatures < fanInRestriction"
  shows "\<exists>msg. generateInitialFeatureSet numFeatures fanInRestriction rnd = Inl (ValueError msg)"
  using assms by (simp add: generateInitialFeatureSet_def np_random_choice_noreplace_def)

text \<open>
  C9. When \<open>fanInRestriction \<le> numFeatures\<close> (the fan-in restriction being a
  sample size, so not negative), generateInitialFeatureSet returns exactly
  fanInRestriction pairwise different integers, each in \<open>[1, numFeatures]\<close>: a
  draw without replacement from \<open>[0, numFeatures)\<close>, shifted by one. When
  \<open>fanInRestriction > numFeatures\<close> it raises the ValueError of the sampling
  instead of returning.
\<close>

theorem generateInitialFeatureSet_distinct_ids:
  "(0 \<le> fanInRestriction \<and> fanInRestriction \<le> numFeatures \<longrightarrow>
      (\<exists>res. generateInitialFeatureSet numFeatures fanInRestriction rnd = Inr res
             \<and> length res = nat fanInRestriction
             \<and> distinct res
             \<and> set res \<subseteq> {1..numFeatures}))
   \<and> (numFeatures < fanInRestriction \<longrightarrow>
      (\<exists>msg. generateInitialFeatureSet numFeatures fanInRestriction rnd = Inl (ValueError msg)))"
  using generateInitialFeatureSet_ok generateInitialFeatureSet_too_many by blast

theorem generateInitialFeatureSet_distinct_ids_witness:
  "((0 :: int) \<le> 3 \<and> (3 :: int) \<le> 6)
   \<and> generateInitialFeatureSet 6 3 (\<lambda>i. 4) = Inr [5, 6, 1]
   \<and> length [5, 6, 1 :: int] = nat 3 \<and> distinct [5, 6, 1 :: int]
   \<and> set [5, 6, 1] \<subseteq> {1..6 :: int}
   \<and> (2 :: int) < 3
   \<and> (\<exists>msg. generateInitialFeatureSet 2 3 (\<lambda>i. 4) = Inl (ValueError msg))"
proof -
  have a: "(0 :: int) \<le> 3 \<and> (3 :: int) \<le> 6" by simp
  have b: "(2 :: int) < 3" by simp
  have v: "generateInitialFeatureSet 6 3 (\<lambda>i. 4) = Inr [5, 6, 1]"
    by code_simp
  have c: "length [5, 6, 1 :: int] = nat 3 \<and> distinct [5, 6, 1 :: int]
      \<and> set [5, 6, 1] \<subseteq> {1..6 :: int}" by simp
  show ?thesis
    using a b v c generateInitialFeatureSet_distinct_ids [of 3 6 "\<lambda>i. 4"]
      generateInitialFeatureSet_distinct_ids [of 3 2 "\<lambda>i. 4"]
    by blast
qed

section \<open>The design matrix\<close>

lemma dict_get_Some: "map_of d k = Some v \<Longrightarrow> dict_get d k = Inr v"
  by (simp add: dict_get_def)

lemma stack_features_Mat:
  assumes "\<forall>k \<in> set ks. \<exists>v. map_of fm k = Some v \<and> length v = c"
  shows "stack_features fm ks (Mat r c rows)
           = Inr (Mat (r + length ks) c (rows @ map (\<lambda>k. the (map_of fm k)) ks))"
  using assms
proof (induction ks arbitrary: r rows)
  case Nil
  then show ?case by simp
next
  case (Cons k ks)
  then obtain v where v: "map_of fm k = Some v" "length v = c" by auto
  have "stack_features fm (k # ks) (Mat r c rows) = stack_features fm ks (Mat (Suc r) c (rows @ [v]))"
    using v by (simp add: dict_get_Some)
  also have "\<dots> = Inr (Mat (Suc r + length ks) c ((rows @ [v]) @ map (\<lambda>k. the (map_of fm k)) ks))"
    using Cons by simp
  finally show ?case using v by simp
qed

lemma stack_features_Vec:
  assumes "\<forall>k \<in> set (k0 # ks). \<exists>v. map_of fm k = Some v \<and> length v = length a"
  shows "stack_features fm (k0 # ks) (Vec a)
           = Inr (Mat (Suc (length (k0 # ks))) (length a)
                   (a # map (\<lambda>k. the (map_of fm k)) (k0 # ks)))"
proof -
  from assms obtain v where v: "map_of fm k0 = Some v" "length v = length a" by auto
  have rest: "\<forall>k \<in> set ks. \<exists>v. map_of fm k = Some v \<and> length v = length a"
    using assms by simp
  have "stack_features fm (k0 # ks) (Vec a) = stack_features fm ks (Mat 2 (length a) [a, v])"
    using v by (simp add: dict_get_Some)
  also have "\<dots> = Inr (Mat (2 + length ks) (length a) ([a, v] @ map (\<lambda>k. the (map_of fm k)) ks))"
    using rest by (rule stack_features_Mat)
  finally show ?thesis using v by simp
qed

lemma keys_have_vectors:
  assumes "\<forall>(k, v) \<in> set fm. length v = N"
  shows "\<forall>k \<in> set (dict_keys fm). \<exists>v. map_of fm k = Some v \<and> length v = N"
proof
  fix k assume "k \<in> set (dict_keys fm)"
  then have "k \<in> fst ` set fm" by (simp add: dict_keys_def)
  then obtain v where v: "map_of fm k = Some v"
    by (metis map_of_eq_None_iff not_Some_eq)
  then have "(k, v) \<in> set fm" by (rule map_of_SomeD)
  with assms have "length v = N" by auto
  with v show "\<exists>v. map_of fm k = Some v \<and> length v = N" by blast
qed

lemma constructDesignMatrix_empty:
  assumes "features data = []"
  shows "constructDesignMatrix data (int N) = Inr (Mat N 1 (replicate N [1]))"
proof -
  have "int N \<noteq> - 1" by simp
  then show ?thesis
    using assms
    by (simp add: constructDesignMatrix_def np_ones_def dict_keys_def np_reshape_column_def Let_def)
qed

lemma constructDesignMatrix_stacked:
  assumes "\<forall>(k, v) \<in> set (features data). length v = N"
    and "features data \<noteq> []"
  shows "constructDesignMatrix data (int N)
           = Inr (Mat N (Suc (length (features data)))
               (map (\<lambda>j. map (\<lambda>row. row ! j)
                      (replicate N 1 # map (\<lambda>k. the (map_of (features data) k))
                                         (dict_keys (features data))))
                    [0..<N]))"
proof -
  let ?fm = "features data"
  from assms(2) obtain k0 ks where ks: "dict_keys ?fm = k0 # ks"
    by (cases ?fm) (auto simp: dict_keys_def)
  have "\<forall>k \<in> set (k0 # ks). \<exists>v. map_of ?fm k = Some v \<and> length v = length (replicate N (1::real))"
    using keys_have_vectors [OF assms(1)] ks by simp
  then have st: "stack_features ?fm (k0 # ks) (Vec (replicate N 1))
           = Inr (Mat (Suc (length (k0 # ks))) (length (replicate N (1::real)))
                   (replicate N 1 # map (\<lambda>k. the (map_of ?fm k)) (k0 # ks)))"
    by (rule stack_features_Vec)
  have len: "length (k0 # ks) = length ?fm"
    using ks by (metis dict_keys_def length_map)
  show ?thesis
    using st len ks assms(2)
    by (simp add: constructDesignMatrix_def np_ones_def Let_def del: stack_features.simps)
qed

text \<open>
  C6. For a dataset whose feature vectors all have length \<open>N\<close>,
  constructDesignMatrix with \<open>numSamples = N\<close> returns a matrix of exactly \<open>N\<close>
  rows and one column more than there are features; the entry in the first
  column of every row is one. With no features it returns the \<open>N\<close> by 1 matrix
  of ones, not an error.
\<close>

theorem constructDesignMatrix_shape:
  assumes "\<forall>(k, v) \<in> set (features data). length v = N"
  shows "\<exists>rows. constructDesignMatrix data (int N)
                  = Inr (Mat N (1 + length (dict_keys (features data))) rows)
           \<and> length rows = N
           \<and> (\<forall>row \<in> set rows. length row = 1 + length (dict_keys (features data))
                                 \<and> row ! 0 = 1)
           \<and> (features data = [] \<longrightarrow> rows = replicate N [1])"
proof (cases "features data = []")
  case True
  then show ?thesis
    using constructDesignMatrix_empty [OF True, of N] by (simp add: dict_keys_def)
next
  case False
  let ?cols = "replicate N (1::real) # map (\<lambda>k. the (map_of (features data) k))
                                         (dict_keys (features data))"
  let ?rows = "map (\<lambda>j. map (\<lambda>row. row ! j) ?cols) [0..<N]"
  have run: "constructDesignMatrix data (int N)
               = Inr (Mat N (1 + length (dict_keys (features data))) ?rows)"
    using constructDesignMatrix_stacked [OF assms False] by (simp add: dict_keys_def)
  have "length ?rows = N" by simp
  moreover have "\<forall>row \<in> set ?rows. length row = 1 + length (dict_keys (features data))
                                 \<and> row ! 0 = 1"
    by auto
  ultimately show ?thesis using run False by blast
qed

theorem constructDesignMatrix_shape_witness:
  "length [2, 3, 4 :: real] = 3 \<and> length [5, 6, 7 :: real] = 3
   \<and> constructDesignMatrix \<lparr>features = [(''X1'', [2, 3, 4]), (''X2'', [5, 6, 7])],
                             response = []\<rparr> (int 3)
       = Inr (Mat 3 3 [[1, 2, 5], [1, 3, 6], [1, 4, 7]])
   \<and> (\<exists>rows. constructDesignMatrix \<lparr>features = [(''X1'', [2, 3, 4]), (''X2'', [5, 6, 7])],
                                     response = []\<rparr> (int 3) = Inr (Mat 3 3 rows)
          \<and> length rows = 3 \<and> (\<forall>row \<in> set rows. length row = 3 \<and> row ! 0 = 1))
   \<and> constructDesignMatrix \<lparr>features = [], response = []\<rparr> (int 3)
       = Inr (Mat 3 1 [[1], [1], [1]])"
proof -
  let ?d = "\<lparr>features = [(''X1'', [2, 3, 4 :: real]), (''X2'', [5, 6, 7])],
             response = ([] :: real list dict)\<rparr>"
  let ?e = "\<lparr>features = ([] :: real list dict), response = ([] :: real list dict)\<rparr>"
  have h: "\<forall>(k, v) \<in> set (features ?d). length v = 3" by simp
  have v: "constructDesignMatrix ?d (int 3) = Inr (Mat 3 3 [[1, 2, 5], [1, 3, 6], [1, 4, 7]])"
    by code_simp
  from constructDesignMatrix_shape [OF h] v
  have s: "\<exists>rows. constructDesignMatrix ?d (int 3) = Inr (Mat 3 3 rows)
          \<and> length rows = 3 \<and> (\<forall>row \<in> set rows. length row = 3 \<and> row ! 0 = 1)"
    by (simp add: dict_keys_def)
  have g: "\<forall>(k, v) \<in> set (features ?e). length v = 3" by simp
  from constructDesignMatrix_shape [OF g]
  have w: "constructDesignMatrix ?e (int 3) = Inr (Mat 3 1 [[1], [1], [1]])"
    by (auto simp: dict_keys_def numeral_eq_Suc)
  have l: "length [2, 3, 4 :: real] = 3 \<and> length [5, 6, 7 :: real] = 3" by simp
  from l v s w show ?thesis by blast
qed

section \<open>Selecting the data of a feature set\<close>

lemma map_of_dict_set: "map_of (dict_set d k v) = (map_of d)(k \<mapsto> v)"
  by (induction d) (auto simp: fun_eq_iff)

lemma keys_dict_set: "fst ` set (dict_set d k v) = insert k (fst ` set d)"
  by (induction d) auto

lemma distinct_dict_set: "distinct (map fst d) \<Longrightarrow> distinct (map fst (dict_set d k v))"
proof (induction d)
  case Nil
  then show ?case by simp
next
  case (Cons p ps)
  have "fst ` set (dict_set ps k v) = insert k (fst ` set ps)"
    by (rule keys_dict_set)
  with Cons show ?case by auto
qed

lemma selectData_loop_ok:
  assumes "\<forall>i \<in> set featureSet. map_of fm (''X'' @ str_int i) \<noteq> None"
  shows "\<exists>res. selectData_loop fm featureSet acc = Inr res
           \<and> map_of res = map_of acc ++ (map_of fm |` ((\<lambda>i. ''X'' @ str_int i) ` set featureSet))
           \<and> set (map fst res) = set (map fst acc) \<union> (\<lambda>i. ''X'' @ str_int i) ` set featureSet
           \<and> (distinct (map fst acc) \<longrightarrow> distinct (map fst res))"
  using assms
proof (induction featureSet arbitrary: acc)
  case Nil
  then show ?case by simp
next
  case (Cons feature rest)
  let ?key = "''X'' @ str_int feature"
  from Cons.prems obtain v where v: "map_of fm ?key = Some v" by auto
  let ?acc = "dict_set acc ?key v"
  have step: "selectData_loop fm (feature # rest) acc = selectData_loop fm rest ?acc"
    using v by (simp add: dict_get_def)
  from Cons.prems have "\<forall>i \<in> set rest. map_of fm (''X'' @ str_int i) \<noteq> None" by simp
  from Cons.IH [OF this, of ?acc] obtain res where
    res: "selectData_loop fm rest ?acc = Inr res"
    and m: "map_of res = map_of ?acc ++ (map_of fm |` ((\<lambda>i. ''X'' @ str_int i) ` set rest))"
    and k: "set (map fst res) = set (map fst ?acc) \<union> (\<lambda>i. ''X'' @ str_int i) ` set rest"
    and d: "distinct (map fst ?acc) \<longrightarrow> distinct (map fst res)"
    by blast
  have m': "map_of res
              = map_of acc ++ (map_of fm |` ((\<lambda>i. ''X'' @ str_int i) ` set (feature # rest)))"
    unfolding m map_of_dict_set using v
    by (auto simp: fun_eq_iff map_add_def restrict_map_def split: option.splits)
  have k': "set (map fst res) = set (map fst acc) \<union> (\<lambda>i. ''X'' @ str_int i) ` set (feature # rest)"
    using k by (simp add: keys_dict_set)
  have d': "distinct (map fst acc) \<longrightarrow> distinct (map fst res)"
    using d distinct_dict_set [of acc ?key v] by blast
  show ?case unfolding step using res m' k' d' by blast
qed

lemma selectData_loop_missing:
  assumes "\<exists>i \<in> set featureSet. map_of fm (''X'' @ str_int i) = None"
  shows "\<exists>i \<in> set featureSet. map_of fm (''X'' @ str_int i) = None
           \<and> selectData_loop fm featureSet acc = Inl (KeyError (''X'' @ str_int i))"
  using assms
proof (induction featureSet arbitrary: acc)
  case Nil
  then show ?case by simp
next
  case (Cons feature rest)
  show ?case
  proof (cases "map_of fm (''X'' @ str_int feature)")
    case None
    then show ?thesis by (auto simp: dict_get_def)
  next
    case (Some v)
    with Cons.prems have "\<exists>i \<in> set rest. map_of fm (''X'' @ str_int i) = None" by auto
    from Cons.IH [OF this, of "dict_set acc (''X'' @ str_int feature) v"] Some
    show ?thesis by (auto simp: dict_get_def)
  qed
qed

text \<open>
  C8. selectData raises if and only if some integer \<open>i\<close> of the feature set has
  no key \<open>"X" + str(i)\<close> in the feature map of the data, and the error is then a
  KeyError (a LookupError) for such a key. Otherwise it returns a structure
  whose feature map is the one of the data restricted to exactly the named
  keys, each with its unchanged value, and whose response is empty.
\<close>

theorem selectData_restricts:
  "((\<exists>e. selectData data featureSet = Inl e)
      = (\<exists>i \<in> set featureSet. map_of (features data) (''X'' @ str_int i) = None))
   \<and> (\<forall>e. selectData data featureSet = Inl e \<longrightarrow>
         (\<exists>i \<in> set featureSet. map_of (features data) (''X'' @ str_int i) = None
                               \<and> e = KeyError (''X'' @ str_int i)))
   \<and> (\<forall>partialData. selectData data featureSet = Inr partialData \<longrightarrow>
         map_of (features partialData)
           = map_of (features data) |` ((\<lambda>i. ''X'' @ str_int i) ` set featureSet)
       \<and> set (dict_keys (features partialData)) = (\<lambda>i. ''X'' @ str_int i) ` set featureSet
       \<and> distinct (dict_keys (features partialData))
       \<and> response partialData = [])"
proof (cases "\<exists>i \<in> set featureSet. map_of (features data) (''X'' @ str_int i) = None")
  case True
  from selectData_loop_missing [OF True, of "[]"]
  obtain i where i: "i \<in> set featureSet" "map_of (features data) (''X'' @ str_int i) = None"
    "selectData_loop (features data) featureSet [] = Inl (KeyError (''X'' @ str_int i))"
    by blast
  then have "selectData data featureSet = Inl (KeyError (''X'' @ str_int i))"
    by (simp add: selectData_def)
  with True i show ?thesis by auto
next
  case False
  then have "\<forall>i \<in> set featureSet. map_of (features data) (''X'' @ str_int i) \<noteq> None" by simp
  from selectData_loop_ok [OF this, of "[]"]
  have "\<exists>res. selectData_loop (features data) featureSet [] = Inr res
           \<and> map_of res = map_of (features data) |` ((\<lambda>i. ''X'' @ str_int i) ` set featureSet)
           \<and> set (map fst res) = (\<lambda>i. ''X'' @ str_int i) ` set featureSet
           \<and> distinct (map fst res)"
    by simp
  then obtain res where
    res: "selectData_loop (features data) featureSet [] = Inr res"
    and m': "map_of res = map_of (features data) |` ((\<lambda>i. ''X'' @ str_int i) ` set featureSet)"
    and k: "set (map fst res) = (\<lambda>i. ''X'' @ str_int i) ` set featureSet"
    and d: "distinct (map fst res)"
    by blast
  have run: "selectData data featureSet = Inr \<lparr>features = res, response = []\<rparr>"
    using res by (simp add: selectData_def)
  show ?thesis using False run m' k d by (simp add: dict_keys_def)
qed

theorem selectData_restricts_witness:
  "selectData \<lparr>features = [(''X1'', [2, 3, 4]), (''X2'', [5, 6, 7]), (''X3'', [1])],
               response = [(''y'', [0])]\<rparr> [3, 1, 3]
     = Inr \<lparr>features = [(''X3'', [1]), (''X1'', [2, 3, 4])], response = []\<rparr>
   \<and> \<not> (\<exists>i \<in> set [3, 1, 3]. map_of [(''X1'', [2, 3, 4]), (''X2'', [5, 6, 7 :: real]), (''X3'', [1])]
                                   (''X'' @ str_int i) = None)
   \<and> selectData \<lparr>features = [(''X1'', [2, 3, 4]), (''X2'', [5, 6, 7]), (''X3'', [1])],
               response = [(''y'', [0])]\<rparr> [3, 4] = Inl (KeyError ''X4'')
   \<and> (\<exists>i \<in> set [3, 4]. map_of [(''X1'', [2, 3, 4]), (''X2'', [5, 6, 7 :: real]), (''X3'', [1])]
                                   (''X'' @ str_int i) = None)"
proof -
  let ?d = "\<lparr>features = [(''X1'', [2, 3, 4 :: real]), (''X2'', [5, 6, 7]), (''X3'', [1])],
               response = [(''y'', [0 :: real])]\<rparr>"
  have a: "selectData ?d [3, 1, 3]
     = Inr \<lparr>features = [(''X3'', [1]), (''X1'', [2, 3, 4])], response = []\<rparr>"
    by code_simp
  have b: "selectData ?d [3, 4] = Inl (KeyError ''X4'')"
    by code_simp
  have c: "\<not> (\<exists>i \<in> set [3, 1, 3]. map_of (features ?d) (''X'' @ str_int i) = None)"
    using a selectData_restricts [of ?d "[3, 1, 3]"] by (metis sum.distinct(1))
  have e: "\<exists>i \<in> set [3, 4]. map_of (features ?d) (''X'' @ str_int i) = None"
    using b selectData_restricts [of ?d "[3, 4]"] by metis
  from a b c e show ?thesis by simp
qed

end
